theory Spec2Isabelle
  imports Main
begin

section \<open>JSON text as \<^verbatim>\<open>encoding/json\<close> reads it\<close>

text \<open>
  The package under verification (\<^verbatim>\<open>versioning.go\<close>) decodes request bodies with Go's
  \<^verbatim>\<open>encoding/json\<close>. Its behaviour is part of what the program does, so this section
  models the part of the library the program reaches: the byte scanner that delimits and
  validates one JSON value, the unquoting of string literals, and (in the next section) the
  storing of a JSON value into the two struct types of the program.

  Bytes are \<^typ>\<open>char\<close>s (\<open>0..255\<close>), a byte slice is a \<^typ>\<open>string\<close>, and a stream
  (\<^verbatim>\<open>io.Reader\<close>) is the sequence of the bytes it delivers before its end: a reader
  that fails with an error of its own is outside the model.
\<close>

type_synonym bytes = string

datatype json =
    JNull
  | JBool bool
  | JNumber bytes
  | JString bytes
  | JArray "json list"
  | JObject "(bytes \<times> json) list"

text \<open>The JSON kind as \<^verbatim>\<open>UnmarshalTypeError.Value\<close> names it.\<close>

fun kind_of :: "json \<Rightarrow> string" where
  "kind_of JNull = ''null''"
| "kind_of (JBool _) = ''bool''"
| "kind_of (JNumber _) = ''number''"
| "kind_of (JString _) = ''string''"
| "kind_of (JArray _) = ''array''"
| "kind_of (JObject _) = ''object''"

subsection \<open>Bytes\<close>

definition dquote :: char where "dquote = CHR 0x22"
definition bslash :: char where "bslash = CHR 0x5C"

definition byte :: "char \<Rightarrow> nat" where
  "byte c = of_char c"

text \<open>\<^verbatim>\<open>isSpace\<close> of scanner.go: space, tab, carriage return, line feed.\<close>

definition isSpace :: "char \<Rightarrow> bool" where
  "isSpace c = (c = CHR '' '' \<or> c = CHR 0x09 \<or> c = CHR 0x0D \<or> c = CHR 0x0A)"

definition isDigit :: "char \<Rightarrow> bool" where
  "isDigit c = (48 \<le> byte c \<and> byte c \<le> 57)"

definition isDigit19 :: "char \<Rightarrow> bool" where
  "isDigit19 c = (49 \<le> byte c \<and> byte c \<le> 57)"

definition hexval :: "char \<Rightarrow> nat option" where
  "hexval c =
     (if 48 \<le> byte c \<and> byte c \<le> 57 then Some (byte c - 48)
      else if 97 \<le> byte c \<and> byte c \<le> 102 then Some (byte c - 97 + 10)
      else if 65 \<le> byte c \<and> byte c \<le> 70 then Some (byte c - 65 + 10)
      else None)"

subsection \<open>UTF-8 (package \<^verbatim>\<open>unicode/utf8\<close>)\<close>

definition cont :: "char \<Rightarrow> bool" where
  "cont c = (128 \<le> byte c \<and> byte c \<le> 191)"

text \<open>
  \<^verbatim>\<open>utf8.DecodeRune\<close>, reduced to the width of the encoding at the head of the slice:
  \<open>0\<close> when the head is not a well-formed encoding (the library then yields
  \<^verbatim>\<open>RuneError\<close> with width 1). Over-long forms, surrogates and values above
  \<^verbatim>\<open>U+10FFFF\<close> are rejected by the ranges of the second byte.
\<close>

fun rune_width :: "bytes \<Rightarrow> nat" where
  "rune_width [] = 0"
| "rune_width (a # s) =
     (let x = byte a in
      if x < 128 then 1
      else if 194 \<le> x \<and> x \<le> 223 then
        (case s of b # _ \<Rightarrow> if cont b then 2 else 0 | _ \<Rightarrow> 0)
      else if 224 \<le> x \<and> x \<le> 239 then
        (case s of b # c # _ \<Rightarrow>
           if (if x = 224 then 160 \<le> byte b \<and> byte b \<le> 191
               else if x = 237 then 128 \<le> byte b \<and> byte b \<le> 159
               else cont b) \<and> cont c then 3 else 0
         | _ \<Rightarrow> 0)
      else if 240 \<le> x \<and> x \<le> 244 then
        (case s of b # c # d # _ \<Rightarrow>
           if (if x = 240 then 144 \<le> byte b \<and> byte b \<le> 191
               else if x = 244 then 128 \<le> byte b \<and> byte b \<le> 143
               else cont b) \<and> cont c \<and> cont d then 4 else 0
         | _ \<Rightarrow> 0)
      else 0)"

text \<open>\<^verbatim>\<open>utf8.EncodeRune\<close>; \<open>replacement\<close> is the encoding of \<^verbatim>\<open>U+FFFD\<close>.\<close>

definition replacement :: bytes where
  "replacement = [char_of (239::nat), char_of (191::nat), char_of (189::nat)]"

definition encode_rune :: "nat \<Rightarrow> bytes" where
  "encode_rune r =
     (if r < 128 then [char_of r]
      else if r < 2048 then [char_of (192 + r div 64), char_of (128 + r mod 64)]
      else if (55296 \<le> r \<and> r < 57344) \<or> 1114111 < r then replacement
      else if r < 65536 then
        [char_of (224 + r div 4096), char_of (128 + r div 64 mod 64), char_of (128 + r mod 64)]
      else
        [char_of (240 + r div 262144), char_of (128 + r div 4096 mod 64),
         char_of (128 + r div 64 mod 64), char_of (128 + r mod 64)])"

subsection \<open>Unquoting a string literal (\<^verbatim>\<open>unquoteBytes\<close> of decode.go)\<close>

text \<open>
  \<^verbatim>\<open>getu4\<close>: the value of a \<^verbatim>\<open>\uXXXX\<close> escape at the head of the slice.
\<close>

fun getu4 :: "bytes \<Rightarrow> nat option" where
  "getu4 (a # b # h1 # h2 # h3 # h4 # _) =
     (if a = bslash \<and> b = CHR ''u'' then
        (case (hexval h1, hexval h2, hexval h3, hexval h4) of
           (Some x1, Some x2, Some x3, Some x4) \<Rightarrow> Some (x1 * 4096 + x2 * 256 + x3 * 16 + x4)
         | _ \<Rightarrow> None)
      else None)"
| "getu4 _ = None"

definition isSurrogate :: "nat \<Rightarrow> bool" where
  "isSurrogate r = (55296 \<le> r \<and> r < 57344)"

text \<open>\<^verbatim>\<open>utf16.DecodeRune\<close>: the code point of a surrogate pair, if it is one.\<close>

definition decode_pair :: "nat \<Rightarrow> nat option \<Rightarrow> nat option" where
  "decode_pair r1 r2o =
     (case r2o of
        None \<Rightarrow> None
      | Some r2 \<Rightarrow>
          if 55296 \<le> r1 \<and> r1 < 56320 \<and> 56320 \<le> r2 \<and> r2 < 57344
          then Some ((r1 - 55296) * 1024 + (r2 - 56320) + 65536)
          else None)"

text \<open>
  The argument is the text between the quotes. An escape the scanner would not have let
  through makes the library report failure (\<open>None\<close>). A byte that does not start a
  well-formed UTF-8 encoding is replaced by \<^verbatim>\<open>U+FFFD\<close>; a lone or ill-paired surrogate
  escape too.
\<close>

fun unquote :: "bytes \<Rightarrow> bytes option" where
  "unquote [] = Some []"
| "unquote (c # s) =
     (if c = bslash then
        (case s of
           [] \<Rightarrow> None
         | e # s' \<Rightarrow>
             if e = dquote \<or> e = bslash \<or> e = CHR ''/'' \<or> e = CHR 0x27
               then map_option ((#) e) (unquote s')
             else if e = CHR ''b'' then map_option ((#) (CHR 0x08)) (unquote s')
             else if e = CHR ''f'' then map_option ((#) (CHR 0x0C)) (unquote s')
             else if e = CHR ''n'' then map_option ((#) (CHR 0x0A)) (unquote s')
             else if e = CHR ''r'' then map_option ((#) (CHR 0x0D)) (unquote s')
             else if e = CHR ''t'' then map_option ((#) (CHR 0x09)) (unquote s')
             else if e = CHR ''u'' then
               (case getu4 (c # s) of
                  None \<Rightarrow> None
                | Some rr \<Rightarrow>
                    if isSurrogate rr then
                      (case decode_pair rr (getu4 (drop 5 s)) of
                         Some dec \<Rightarrow> map_option ((@) (encode_rune dec)) (unquote (drop 11 s))
                       | None \<Rightarrow> map_option ((@) replacement) (unquote (drop 5 s)))
                    else map_option ((@) (encode_rune rr)) (unquote (drop 5 s)))
             else None)
      else if c = dquote \<or> byte c < 32 then None
      else if byte c < 128 then map_option ((#) c) (unquote s)
      else
        (let n = rune_width (c # s) in
         if n = 0 then map_option ((@) replacement) (unquote s)
         else map_option ((@) (take n (c # s))) (unquote (drop (n - 1) s))))"

subsection \<open>The scanner (scanner.go), building the value as it goes\<close>

text \<open>
  The library scans a value byte by byte with a step function and a stack of open
  containers (\<^verbatim>\<open>parseState\<close>), and decodes the delimited bytes afterwards. The model
  runs the same automaton and keeps, in each stack frame, what has been read of the
  container so far, so that the value is there when the scan ends.
  A frame is an open array with its elements, or an open object with its members and,
  once a key has been read, the key whose value is awaited. Elements and members are kept
  in reverse.
\<close>

datatype frame =
    FArray "json list"
  | FObject "(bytes \<times> json) list" "bytes option"

text \<open>
  The step states, named after the library's step functions. Strings carry the raw text
  read so far, numbers theirs, both reversed; \<open>InLiteral\<close> stands for the states
  \<^verbatim>\<open>stateT\<close>, \<^verbatim>\<open>stateTr\<close>, ... and carries what is left to match.
\<close>

datatype step =
    BeginValue
  | BeginValueOrEmpty
  | BeginStringOrEmpty
  | BeginString
  | EndValue
  | InString bytes
  | InStringEsc bytes
  | InStringEscU nat bytes
  | InLiteral bytes json
  | Neg bytes
  | State0 bytes
  | State1 bytes
  | Dot bytes
  | Dot0 bytes
  | StateE bytes
  | ESign bytes
  | E0 bytes

datatype scan =
    Continue step "frame list"
  | End json         \<comment> \<open>the top-level value ends with this byte\<close>
  | EndBefore json   \<comment> \<open>the top-level value ended before this byte\<close>
  | ScanError

text \<open>A value is complete: hand it to the enclosing container, or end the scan.\<close>

fun complete :: "json \<Rightarrow> frame list \<Rightarrow> scan" where
  "complete v [] = End v"
| "complete v (FArray es # st) = Continue EndValue (FArray (v # es) # st)"
| "complete v (FObject ms (Some k) # st) = Continue EndValue (FObject ((k, v) # ms) None # st)"
| "complete (JString k) (FObject ms None # st) = Continue EndValue (FObject ms (Some k) # st)"
| "complete _ (FObject ms None # st) = ScanError"

text \<open>\<^verbatim>\<open>stateEndValue\<close> inside a container.\<close>

fun stateEndValue :: "frame list \<Rightarrow> char \<Rightarrow> scan" where
  "stateEndValue [] c = ScanError"
| "stateEndValue (FObject ms (Some k) # st) c =
     (if isSpace c then Continue EndValue (FObject ms (Some k) # st)
      else if c = CHR '':'' then Continue BeginValue (FObject ms (Some k) # st)
      else ScanError)"
| "stateEndValue (FObject ms None # st) c =
     (if isSpace c then Continue EndValue (FObject ms None # st)
      else if c = CHR '','' then Continue BeginString (FObject ms None # st)
      else if c = CHR ''}'' then complete (JObject (rev ms)) st
      else ScanError)"
| "stateEndValue (FArray es # st) c =
     (if isSpace c then Continue EndValue (FArray es # st)
      else if c = CHR '','' then Continue BeginValue (FArray es # st)
      else if c = CHR '']'' then complete (JArray (rev es)) st
      else ScanError)"

text \<open>A number ends at the first byte that cannot continue it; that byte is then read as
  what follows a value.\<close>

definition number_end :: "bytes \<Rightarrow> frame list \<Rightarrow> char \<Rightarrow> scan" where
  "number_end t st c =
     (case st of
        [] \<Rightarrow> EndBefore (JNumber (rev t))
      | _ \<Rightarrow> (case complete (JNumber (rev t)) st of
                Continue _ st' \<Rightarrow> stateEndValue st' c
              | r \<Rightarrow> ScanError))"

definition stateBeginString :: "frame list \<Rightarrow> char \<Rightarrow> scan" where
  "stateBeginString st c =
     (if isSpace c then Continue BeginString st
      else if c = dquote then Continue (InString []) st
      else ScanError)"

text \<open>
  \<^verbatim>\<open>pushParseState\<close>: opening a container beyond \<^verbatim>\<open>maxNestingDepth\<close> is an error.
\<close>

definition maxNestingDepth :: nat where
  "maxNestingDepth = 10000"

definition pushParseState :: "frame \<Rightarrow> frame list \<Rightarrow> step \<Rightarrow> scan" where
  "pushParseState f st successState =
     (if length (f # st) \<le> maxNestingDepth then Continue successState (f # st) else ScanError)"

definition stateBeginValue :: "frame list \<Rightarrow> char \<Rightarrow> scan" where
  "stateBeginValue st c =
     (if isSpace c then Continue BeginValue st
      else if c = CHR ''{'' then pushParseState (FObject [] None) st BeginStringOrEmpty
      else if c = CHR ''['' then pushParseState (FArray [] ) st BeginValueOrEmpty
      else if c = dquote then Continue (InString []) st
      else if c = CHR ''-'' then Continue (Neg [c]) st
      else if c = CHR ''0'' then Continue (State0 [c]) st
      else if c = CHR ''t'' then Continue (InLiteral ''rue'' (JBool True)) st
      else if c = CHR ''f'' then Continue (InLiteral ''alse'' (JBool False)) st
      else if c = CHR ''n'' then Continue (InLiteral ''ull'' JNull) st
      else if isDigit19 c then Continue (State1 [c]) st
      else ScanError)"

definition state0 :: "bytes \<Rightarrow> frame list \<Rightarrow> char \<Rightarrow> scan" where
  "state0 t st c =
     (if c = CHR ''.'' then Continue (Dot (c # t)) st
      else if c = CHR ''e'' \<or> c = CHR ''E'' then Continue (StateE (c # t)) st
      else number_end t st c)"

definition stateESign :: "bytes \<Rightarrow> frame list \<Rightarrow> char \<Rightarrow> scan" where
  "stateESign t st c = (if isDigit c then Continue (E0 (c # t)) st else ScanError)"

fun scan_step :: "step \<Rightarrow> frame list \<Rightarrow> char \<Rightarrow> scan" where
  "scan_step BeginValue st c = stateBeginValue st c"
| "scan_step BeginValueOrEmpty st c =
     (if isSpace c then Continue BeginValueOrEmpty st
      else if c = CHR '']'' then stateEndValue st c
      else stateBeginValue st c)"
| "scan_step BeginStringOrEmpty st c =
     (if isSpace c then Continue BeginStringOrEmpty st
      else if c = CHR ''}'' then stateEndValue st c
      else stateBeginString st c)"
| "scan_step BeginString st c = stateBeginString st c"
| "scan_step EndValue st c = stateEndValue st c"
| "scan_step (InString raw) st c =
     (if c = dquote then
        (case unquote (rev raw) of
           None \<Rightarrow> ScanError
         | Some s \<Rightarrow> complete (JString s) st)
      else if c = bslash then Continue (InStringEsc (c # raw)) st
      else if byte c < 32 then ScanError
      else Continue (InString (c # raw)) st)"
| "scan_step (InStringEsc raw) st c =
     (if c = CHR ''b'' \<or> c = CHR ''f'' \<or> c = CHR ''n'' \<or> c = CHR ''r'' \<or> c = CHR ''t''
         \<or> c = bslash \<or> c = CHR ''/'' \<or> c = dquote
      then Continue (InString (c # raw)) st
      else if c = CHR ''u'' then Continue (InStringEscU 0 (c # raw)) st
      else ScanError)"
| "scan_step (InStringEscU n raw) st c =
     (if hexval c = None then ScanError
      else if n < 3 then Continue (InStringEscU (Suc n) (c # raw)) st
      else Continue (InString (c # raw)) st)"
| "scan_step (InLiteral [] v) st c = ScanError"
| "scan_step (InLiteral [x] v) st c = (if c = x then complete v st else ScanError)"
| "scan_step (InLiteral (x # xs) v) st c =
     (if c = x then Continue (InLiteral xs v) st else ScanError)"
| "scan_step (Neg t) st c =
     (if c = CHR ''0'' then Continue (State0 (c # t)) st
      else if isDigit19 c then Continue (State1 (c # t)) st
      else ScanError)"
| "scan_step (State1 t) st c =
     (if isDigit c then Continue (State1 (c # t)) st else state0 t st c)"
| "scan_step (State0 t) st c = state0 t st c"
| "scan_step (Dot t) st c = (if isDigit c then Continue (Dot0 (c # t)) st else ScanError)"
| "scan_step (Dot0 t) st c =
     (if isDigit c then Continue (Dot0 (c # t)) st
      else if c = CHR ''e'' \<or> c = CHR ''E'' then Continue (StateE (c # t)) st
      else number_end t st c)"
| "scan_step (StateE t) st c =
     (if c = CHR ''+'' \<or> c = CHR ''-'' then Continue (ESign (c # t)) st
      else stateESign t st c)"
| "scan_step (ESign t) st c = stateESign t st c"
| "scan_step (E0 t) st c =
     (if isDigit c then Continue (E0 (c # t)) st else number_end t st c)"

text \<open>
  At the end of the input only a top-level number that could stop here is a value
  (the library feeds the scanner one invented space to find out).
\<close>

fun scan_eof :: "step \<Rightarrow> frame list \<Rightarrow> json option" where
  "scan_eof (State0 t) [] = Some (JNumber (rev t))"
| "scan_eof (State1 t) [] = Some (JNumber (rev t))"
| "scan_eof (Dot0 t) [] = Some (JNumber (rev t))"
| "scan_eof (E0 t) [] = Some (JNumber (rev t))"
| "scan_eof _ _ = None"

datatype scan_failure = Truncated | BadByte

text \<open>Feed the bytes to the scanner until the top-level value ends: the value and the
  bytes after it, which are not looked at.\<close>

fun scan_run :: "step \<Rightarrow> frame list \<Rightarrow> bytes \<Rightarrow> scan_failure + json \<times> bytes" where
  "scan_run s st [] =
     (case scan_eof s st of None \<Rightarrow> Inl Truncated | Some v \<Rightarrow> Inr (v, []))"
| "scan_run s st (c # cs) =
     (case scan_step s st c of
        ScanError \<Rightarrow> Inl BadByte
      | Continue s' st' \<Rightarrow> scan_run s' st' cs
      | End v \<Rightarrow> Inr (v, cs)
      | EndBefore v \<Rightarrow> Inr (v, c # cs))"


section \<open>Storing a JSON value into the program's structs (decode.go)\<close>

text \<open>
  Go's \<^verbatim>\<open>error\<close> results are \<^typ>\<open>'a option\<close> values (\<open>None\<close> is \<^verbatim>\<open>nil\<close>) of the
  errors the library produces on the paths below: \<^verbatim>\<open>io.EOF\<close>,
  \<^verbatim>\<open>io.ErrUnexpectedEOF\<close>, \<^verbatim>\<open>*json.SyntaxError\<close>, \<^verbatim>\<open>*json.UnmarshalTypeError\<close>
  (with the kind of the JSON value and the JSON name of the field, empty at the top level)
  and \<^verbatim>\<open>*json.InvalidUnmarshalError\<close>.
\<close>

datatype error =
    EOF
  | ErrUnexpectedEOF
  | SyntaxError
  | UnmarshalTypeError string string
  | InvalidUnmarshalError

text \<open>
  \<^verbatim>\<open>type GreetRequest struct { Name string `json:"name"` }\<close>

  The program shares a \<^verbatim>\<open>GreetRequest\<close> between its caller and the version-1 wrapper
  through a pointer, so the records live in a store: a pointer is \<^verbatim>\<open>nil\<close> (\<open>None\<close>) or
  the index of a cell, and \<^verbatim>\<open>new\<close> appends a cell. Go is memory safe: every non-nil
  pointer the program holds is the index of a cell.
\<close>

record GreetRequest =
  Name :: string

type_synonym addr = nat
type_synonym heap = "GreetRequest list"

definition new_GreetRequest :: "heap \<Rightarrow> addr \<times> heap" where
  "new_GreetRequest h = (length h, h @ [\<lparr>Name = []\<rparr>])"

text \<open>
  \<^verbatim>\<open>
  type GreetRequestV1 struct {
      *GreetRequest
      FirstName string `json:"firstName"`
      LastName  string `json:"lastName"`
  }
  \<close>
\<close>

record GreetRequestV1 =
  GreetRequest :: "addr option"
  FirstName :: string
  LastName :: string

subsection \<open>Finding the field of a key\<close>

text \<open>
  \<^verbatim>\<open>foldName\<close> of fold.go maps every rune to the least rune of its case-folding orbit.
  The fields of the program have ASCII names, and the only runes outside ASCII that fold
  to an ASCII letter are \<^verbatim>\<open>U+017F\<close> (long s, bytes \<open>C5 BF\<close>, folds to \<open>S\<close>) and
  \<^verbatim>\<open>U+212A\<close> (Kelvin sign, bytes \<open>E2 84 AA\<close>, folds to \<open>K\<close>); the model folds ASCII
  letters and these two and leaves every other byte, which decides equality with the
  fold of an ASCII name as the library does. Keys come out of \<open>unquote\<close>, hence are
  well-formed UTF-8.
\<close>

definition long_s :: bytes where
  "long_s = [char_of (197::nat), char_of (191::nat)]"

definition kelvin :: bytes where
  "kelvin = [char_of (226::nat), char_of (132::nat), char_of (170::nat)]"

fun foldName :: "bytes \<Rightarrow> bytes" where
  "foldName [] = []"
| "foldName (c # s) =
     (if 97 \<le> byte c \<and> byte c \<le> 122 then char_of (byte c - 32) # foldName s
      else if c # take 1 s = long_s then CHR ''S'' # foldName (drop 1 s)
      else if c # take 2 s = kelvin then CHR ''K'' # foldName (drop 2 s)
      else c # foldName s)"

text \<open>
  The lookup of \<^verbatim>\<open>decodeState.object\<close>: the field whose JSON name is the key
  (\<^verbatim>\<open>byExactName\<close>), else the field whose folded name is the folded key
  (\<^verbatim>\<open>byFoldedName\<close>). Unknown keys have no field and their values are skipped.
\<close>

definition find_field :: "string list \<Rightarrow> bytes \<Rightarrow> string option" where
  "find_field names key =
     (case find (\<lambda>n. n = key) names of
        Some n \<Rightarrow> Some n
      | None \<Rightarrow> find (\<lambda>n. foldName n = foldName key) names)"

text \<open>
  The JSON fields of \<^verbatim>\<open>GreetRequest\<close>, and of \<^verbatim>\<open>grv1\<close> (the method-less copy of
  \<^verbatim>\<open>GreetRequestV1\<close> that \<^verbatim>\<open>UnmarshalJSON\<close> declares): the fields of an embedded
  struct pointer are promoted, so \<^verbatim>\<open>grv1\<close> has the field \<^verbatim>\<open>name\<close> too.
\<close>

definition fields_GreetRequest :: "string list" where
  "fields_GreetRequest = [''name'']"

definition fields_grv1 :: "string list" where
  "fields_grv1 = [''firstName'', ''lastName'', ''name'']"

subsection \<open>Storing\<close>

text \<open>\<^verbatim>\<open>saveError\<close>: the first error is kept, decoding goes on.\<close>

definition saveError :: "error \<Rightarrow> error option \<Rightarrow> error option" where
  "saveError e saved = (case saved of None \<Rightarrow> Some e | Some e0 \<Rightarrow> Some e0)"

text \<open>
  A JSON value stored into a field of Go type \<^verbatim>\<open>string\<close>: a string is assigned,
  \<^verbatim>\<open>null\<close> has no effect, anything else is a type error and leaves the field alone.
  The result is the field's new content and the saved error.
\<close>

fun store_string :: "string \<Rightarrow> json \<Rightarrow> string \<Rightarrow> error option \<Rightarrow> string \<times> error option" where
  "store_string fld (JString s) old saved = (s, saved)"
| "store_string fld JNull old saved = (old, saved)"
| "store_string fld v old saved = (old, saveError (UnmarshalTypeError (kind_of v) fld) saved)"

text \<open>The members of an object stored, in order, into the \<^verbatim>\<open>GreetRequest\<close> at \<open>a\<close>.\<close>

fun object_GreetRequest ::
  "addr \<Rightarrow> (bytes \<times> json) list \<Rightarrow> heap \<Rightarrow> error option \<Rightarrow> heap \<times> error option" where
  "object_GreetRequest a [] h saved = (h, saved)"
| "object_GreetRequest a ((k, v) # ms) h saved =
     (case find_field fields_GreetRequest k of
        None \<Rightarrow> object_GreetRequest a ms h saved
      | Some f \<Rightarrow>
          (case store_string f v (Name (h ! a)) saved of
             (n, saved') \<Rightarrow> object_GreetRequest a ms (h[a := (h ! a)\<lparr>Name := n\<rparr>]) saved'))"

text \<open>
  A value stored into the \<^verbatim>\<open>GreetRequest\<close> at \<open>a\<close>: an object member by member,
  \<^verbatim>\<open>null\<close> with no effect, any other value is a type error.
\<close>

definition value_GreetRequest :: "addr \<Rightarrow> json \<Rightarrow> heap \<Rightarrow> heap \<times> error option" where
  "value_GreetRequest a v h =
     (case v of
        JObject ms \<Rightarrow> object_GreetRequest a ms h None
      | JNull \<Rightarrow> (h, None)
      | _ \<Rightarrow> (h, Some (UnmarshalTypeError (kind_of v) [])))"

text \<open>
  The members of an object stored into a \<^verbatim>\<open>grv1\<close>. A member for the promoted field
  \<^verbatim>\<open>name\<close> goes through the embedded pointer, and a \<^verbatim>\<open>nil\<close> embedded pointer is first
  set to a new \<^verbatim>\<open>GreetRequest\<close>, before the member's value is looked at.
\<close>

fun object_grv1 ::
  "(bytes \<times> json) list \<Rightarrow> GreetRequestV1 \<Rightarrow> heap \<Rightarrow> error option
     \<Rightarrow> GreetRequestV1 \<times> heap \<times> error option" where
  "object_grv1 [] r h saved = (r, h, saved)"
| "object_grv1 ((k, v) # ms) r h saved =
     (case find_field fields_grv1 k of
        None \<Rightarrow> object_grv1 ms r h saved
      | Some f \<Rightarrow>
          if f = ''firstName'' then
            (case store_string f v (FirstName r) saved of
               (n, saved') \<Rightarrow> object_grv1 ms (r\<lparr>FirstName := n\<rparr>) h saved')
          else if f = ''lastName'' then
            (case store_string f v (LastName r) saved of
               (n, saved') \<Rightarrow> object_grv1 ms (r\<lparr>LastName := n\<rparr>) h saved')
          else
            (case (case GreetRequest r of
                     Some a \<Rightarrow> (a, h)
                   | None \<Rightarrow> new_GreetRequest h) of
               (a, h1) \<Rightarrow>
                 (case store_string f v (Name (h1 ! a)) saved of
                    (n, saved') \<Rightarrow>
                      object_grv1 ms (r\<lparr>GreetRequest := Some a\<rparr>)
                        (h1[a := (h1 ! a)\<lparr>Name := n\<rparr>]) saved')))"

definition value_grv1 ::
  "json \<Rightarrow> GreetRequestV1 \<Rightarrow> heap \<Rightarrow> GreetRequestV1 \<times> heap \<times> error option" where
  "value_grv1 v r h =
     (case v of
        JObject ms \<Rightarrow> object_grv1 ms r h None
      | JNull \<Rightarrow> (r, h, None)
      | _ \<Rightarrow> (r, h, Some (UnmarshalTypeError (kind_of v) [])))"

subsection \<open>\<^verbatim>\<open>json.Unmarshal\<close> and \<^verbatim>\<open>Decoder.Decode\<close>\<close>

text \<open>
  \<^verbatim>\<open>checkValid\<close>: the bytes are one JSON value, with white space around it only. The model
  returns the value the bytes denote.
\<close>

definition checkValid :: "bytes \<Rightarrow> error + json" where
  "checkValid b =
     (case scan_run BeginValue [] b of
        Inl _ \<Rightarrow> Inl SyntaxError
      | Inr (v, rest) \<Rightarrow> if list_all isSpace rest then Inr v else Inl SyntaxError)"

text \<open>
  \<^verbatim>\<open>json.Unmarshal(b, &v1r)\<close> for a \<^verbatim>\<open>grv1\<close> variable \<open>v1r\<close>: the variable after the
  call, the store, and the error.
\<close>

definition Unmarshal_grv1 ::
  "bytes \<Rightarrow> GreetRequestV1 \<Rightarrow> heap \<Rightarrow> GreetRequestV1 \<times> heap \<times> error option" where
  "Unmarshal_grv1 b v1r h =
     (case checkValid b of
        Inl e \<Rightarrow> (v1r, h, Some e)
      | Inr v \<Rightarrow> value_grv1 v v1r h)"

text \<open>
  \<^verbatim>\<open>Decoder.readValue\<close>: skip white space and delimit the next value of the stream.
  The result is the text of the value and the rest of the stream, which the decoder does
  not examine (beyond the byte that ends a top-level number). A stream of white space
  only is \<^verbatim>\<open>io.EOF\<close>, a stream that ends inside a value \<^verbatim>\<open>io.ErrUnexpectedEOF\<close>.
\<close>

definition readValue :: "bytes \<Rightarrow> error + bytes \<times> bytes" where
  "readValue s =
     (let s' = dropWhile isSpace s in
      case scan_run BeginValue [] s' of
        Inl Truncated \<Rightarrow> Inl (if s' = [] then EOF else ErrUnexpectedEOF)
      | Inl BadByte \<Rightarrow> Inl SyntaxError
      | Inr (v, rest) \<Rightarrow> Inr (take (length s' - length rest) s', rest))"

section \<open>The program (versioning.go)\<close>

text \<open>
  A call returns an \<^verbatim>\<open>error\<close> (\<open>None\<close> is \<^verbatim>\<open>nil\<close>) or panics.
\<close>

datatype outcome = Returned "error option" | Panicked

text \<open>
  \<^verbatim>\<open>
  func (r GreetRequestV1) UnmarshalJSON(b []byte) error {
      type grv1 GreetRequestV1
      var v1r grv1
      if err := json.Unmarshal(b, &v1r); err != nil {
          return err
      }
      r.GreetRequest.Name = v1r.FirstName + " " + v1r.LastName
      return nil
  }
  \<close>
  The receiver is a copy of the wrapper; the assignment goes through its embedded pointer
  and panics when that is \<^verbatim>\<open>nil\<close>.
\<close>

definition UnmarshalJSON :: "GreetRequestV1 \<Rightarrow> bytes \<Rightarrow> heap \<Rightarrow> outcome \<times> heap" where
  "UnmarshalJSON r b h =
     (case Unmarshal_grv1 b \<lparr>GreetRequest = None, FirstName = [], LastName = []\<rparr> h of
        (v1r, h', Some err) \<Rightarrow> (Returned (Some err), h')
      | (v1r, h', None) \<Rightarrow>
          (case GreetRequest r of
             None \<Rightarrow> (Panicked, h')
           | Some a \<Rightarrow>
               (Returned None,
                h'[a := (h' ! a)\<lparr>Name := FirstName v1r @ '' '' @ LastName v1r\<rparr>])))"

text \<open>
  \<^verbatim>\<open>
  func (gr *GreetRequest) fromV1() json.Unmarshaler {
      return &GreetRequestV1{GreetRequest: gr}
  }
  \<close>
\<close>

definition fromV1 :: "addr option \<Rightarrow> GreetRequestV1" where
  "fromV1 gr = \<lparr>GreetRequest = gr, FirstName = [], LastName = []\<rparr>"

text \<open>
  \<^verbatim>\<open>dec.Decode(v)\<close> for the two kinds of \<open>v\<close> the program passes: a
  \<^verbatim>\<open>json.Unmarshaler\<close>, which is handed the text of the value whatever the value is, and a
  \<^verbatim>\<open>*GreetRequest\<close>, which must not be \<^verbatim>\<open>nil\<close>. The third component of the result is
  the part of the stream after the value; after a failure to read a value the decoder is
  of no further use and nothing is left.
\<close>

datatype target = Unmarshaler GreetRequestV1 | Pointer "addr option"

definition Decoder_Decode :: "target \<Rightarrow> bytes \<Rightarrow> heap \<Rightarrow> outcome \<times> heap \<times> bytes" where
  "Decoder_Decode v r h =
     (case readValue r of
        Inl e \<Rightarrow> (Returned (Some e), h, [])
      | Inr (item, rest) \<Rightarrow>
          (case v of
             Unmarshaler u \<Rightarrow>
               (case UnmarshalJSON u item h of (out, h') \<Rightarrow> (out, h', rest))
           | Pointer None \<Rightarrow> (Returned (Some InvalidUnmarshalError), h, rest)
           | Pointer (Some a) \<Rightarrow>
               (case checkValid item of
                  Inl e \<Rightarrow> (Returned (Some e), h, rest)
                | Inr j \<Rightarrow>
                    (case value_GreetRequest a j h of
                       (h', saved) \<Rightarrow> (Returned saved, h', rest)))))"

text \<open>
  \<^verbatim>\<open>
  func (gr *GreetRequest) Decode(version string, r io.Reader) error {
      dec := json.NewDecoder(r)
      var err error
      switch version {
      case "v1":
          err = dec.Decode(gr.fromV1())
      default:
          err = dec.Decode(gr)
      }
      return err
  }
  \<close>
\<close>

definition Decode :: "addr option \<Rightarrow> string \<Rightarrow> bytes \<Rightarrow> heap \<Rightarrow> outcome \<times> heap \<times> bytes" where
  "Decode gr version r h =
     (if version = ''v1'' then Decoder_Decode (Unmarshaler (fromV1 gr)) r h
      else Decoder_Decode (Pointer gr) r h)"

text \<open>
  \<^verbatim>\<open>
  func GreetHandler(w http.ResponseWriter, r *http.Request) {
      version := mux.Vars(r)["version"]
      var req GreetRequest
      if err := req.Decode(version, r.Body); err != nil {
          http.Error(w, err.Error(), 400)
          return
      }
      greeting := fmt.Sprintf("Hello %s!", req.Name)
      json.NewEncoder(w).Encode(map[string]string{"greeting": greeting})
  }
  \<close>
  The request is its path variable and its body. \<^verbatim>\<open>http.Error\<close> writes the status and
  the message followed by a newline; the encoder writes, with status 200, the JSON
  encoding of the map, which the model keeps as the map. The text of an error,
  \<^verbatim>\<open>err.Error()\<close>, is the library's and is a parameter. \<open>req\<close> is the only cell of the
  handler's store.
\<close>

datatype body = Text bytes | Json "(string \<times> string) list"

record response =
  status :: nat
  body :: body

definition GreetHandler :: "(error \<Rightarrow> string) \<Rightarrow> string \<Rightarrow> bytes \<Rightarrow> response option" where
  "GreetHandler Error version r_Body =
     (case new_GreetRequest [] of
        (req, h) \<Rightarrow>
          (case Decode (Some req) version r_Body h of
             (Panicked, _, _) \<Rightarrow> None
           | (Returned (Some err), _, _) \<Rightarrow>
               Some \<lparr>status = 400, body = Text (Error err @ [CHR 0x0A])\<rparr>
           | (Returned None, h', _) \<Rightarrow>
               Some \<lparr>status = 200,
                     body = Json [(''greeting'', ''Hello '' @ Name (h' ! req) @ ''!'')]\<rparr>))"


section \<open>Vocabulary of the properties\<close>

text \<open>
  The key \<open>k\<close> of a member names the field \<open>f\<close> when the decoder's lookup takes it for
  \<open>f\<close>: the key is the field's JSON name up to case folding.
\<close>

definition names :: "string \<Rightarrow> bytes \<Rightarrow> bool" where
  "names f k = (foldName k = foldName f)"

text \<open>The values of the members of an object that name the field \<open>f\<close>, in order.\<close>

definition members_named :: "string \<Rightarrow> (bytes \<times> json) list \<Rightarrow> json list" where
  "members_named f ms = map snd (filter (\<lambda>m. names f (fst m)) ms)"

text \<open>The members of a JSON value: those of an object, none of any other value.\<close>

fun members :: "json \<Rightarrow> (bytes \<times> json) list" where
  "members (JObject ms) = ms"
| "members _ = []"

text \<open>The values a field of Go type \<^verbatim>\<open>string\<close> takes without a type error.\<close>

fun storable :: "json \<Rightarrow> bool" where
  "storable (JString _) = True"
| "storable JNull = True"
| "storable _ = False"

text \<open>
  What a string field holds after the given values were stored into it one after the
  other: the last string among them, or its old content when there is none.
\<close>

fun assigned :: "string \<Rightarrow> json list \<Rightarrow> string" where
  "assigned old [] = old"
| "assigned old (JString s # vs) = assigned s vs"
| "assigned old (_ # vs) = assigned old vs"

text \<open>
  A JSON value fits a struct with the given fields when it is \<^verbatim>\<open>null\<close>, or an object
  whose members naming a field all hold storable values.
\<close>

fun fits :: "string list \<Rightarrow> json \<Rightarrow> bool" where
  "fits fs (JObject ms) = list_all (\<lambda>f. list_all storable (members_named f ms)) fs"
| "fits fs JNull = True"
| "fits fs _ = False"

text \<open>The fields a version tag decodes into.\<close>

definition fields_of :: "string \<Rightarrow> string list" where
  "fields_of version = (if version = ''v1'' then fields_grv1 else fields_GreetRequest)"

text \<open>
  A payload is rejected under a version tag when its first JSON value cannot be read
  (the stream is empty, ends inside the value or has a byte no JSON value can have there)
  or does not fit the struct the tag decodes into.
\<close>

definition rejected :: "string \<Rightarrow> bytes \<Rightarrow> bool" where
  "rejected version payload =
     (case readValue payload of
        Inl e \<Rightarrow> True
      | Inr (b, rest) \<Rightarrow>
          (case checkValid b of
             Inl e \<Rightarrow> True
           | Inr v \<Rightarrow> \<not> fits (fields_of version) v))"

section \<open>Field lookup and the member loops\<close>

lemma fold_firstName: "foldName ''firstName'' = ''FIRSTNAME''"
  by code_simp

lemma fold_lastName: "foldName ''lastName'' = ''LASTNAME''"
  by code_simp

lemma fold_name: "foldName ''name'' = ''NAME''"
  by code_simp

lemmas fold_fields = fold_firstName fold_lastName fold_name

declare foldName.simps [simp del]

lemma find_eq: "find (\<lambda>n. n = k) ns = (if k \<in> set ns then Some k else None)"
  by (induction ns) auto

lemma find_field_grv1:
  "find_field fields_grv1 k =
     (if names ''firstName'' k then Some ''firstName''
      else if names ''lastName'' k then Some ''lastName''
      else if names ''name'' k then Some ''name''
      else None)"
proof -
  have fold: "find (\<lambda>n. foldName n = foldName k) fields_grv1 =
     (if names ''firstName'' k then Some ''firstName''
      else if names ''lastName'' k then Some ''lastName''
      else if names ''name'' k then Some ''name''
      else None)"
    unfolding fields_grv1_def names_def by (simp add: eq_commute[of "foldName k"])
  show ?thesis
  proof (cases "k \<in> set fields_grv1")
    case False
    then show ?thesis by (simp add: find_field_def find_eq fold)
  next
    case True
    then consider "k = ''firstName''" | "k = ''lastName''" | "k = ''name''"
      unfolding fields_grv1_def by auto
    then show ?thesis
    proof cases
      case 1
      then show ?thesis by (simp add: find_field_def find_eq fields_grv1_def names_def)
    next
      case 2
      then show ?thesis
        by (simp add: find_field_def find_eq fields_grv1_def names_def fold_fields)
    next
      case 3
      then show ?thesis
        by (simp add: find_field_def find_eq fields_grv1_def names_def fold_fields)
    qed
  qed
qed

lemma find_field_GreetRequest:
  "find_field fields_GreetRequest k = (if names ''name'' k then Some ''name'' else None)"
  unfolding find_field_def find_eq fields_GreetRequest_def names_def
  by (simp add: eq_commute[of "foldName k"])

lemma names_distinct:
  "names ''firstName'' k \<Longrightarrow> \<not> names ''lastName'' k"
  "names ''firstName'' k \<Longrightarrow> \<not> names ''name'' k"
  "names ''lastName'' k \<Longrightarrow> \<not> names ''name'' k"
  by (simp_all add: names_def fold_fields)

lemma store_string_eq:
  "store_string f v old saved =
     (assigned old [v], if storable v then saved else saveError (UnmarshalTypeError (kind_of v) f) saved)"
  by (cases v) simp_all

lemma saveError_None [simp]: "saveError e s \<noteq> None"
  by (simp add: saveError_def split: option.splits)

lemma saveError_Some [simp]: "saveError e (Some x) = Some x"
  by (simp add: saveError_def)

lemma object_GreetRequest_char:
  "a < length h \<Longrightarrow> object_GreetRequest a ms h saved = (h', saved') \<Longrightarrow>
     length h' = length h \<and> (\<forall>b. b \<noteq> a \<longrightarrow> h' ! b = h ! b)
     \<and> Name (h' ! a) = assigned (Name (h ! a)) (members_named ''name'' ms)
     \<and> (saved' = None \<longleftrightarrow> saved = None \<and> list_all storable (members_named ''name'' ms))"
proof (induction ms arbitrary: h saved)
  case Nil
  then show ?case by (auto simp: members_named_def)
next
  case (Cons m ms)
  obtain k v where m: "m = (k, v)" by (cases m)
  show ?case
  proof (cases "names ''name'' k")
    case False
    with Cons.prems m have "object_GreetRequest a ms h saved = (h', saved')"
      by (simp add: find_field_GreetRequest)
    from Cons.IH[OF Cons.prems(1) this] False m show ?thesis
      by (simp add: members_named_def)
  next
    case True
    let ?h1 = "h[a := (h ! a)\<lparr>Name := assigned (Name (h ! a)) [v]\<rparr>]"
    let ?s1 = "if storable v then saved else saveError (UnmarshalTypeError (kind_of v) ''name'') saved"
    from Cons.prems m True have run: "object_GreetRequest a ms ?h1 ?s1 = (h', saved')"
      by (simp add: find_field_GreetRequest store_string_eq)
    have len: "a < length ?h1" using Cons.prems(1) by simp
    have mn: "members_named ''name'' (m # ms) = v # members_named ''name'' ms"
      using True m by (simp add: members_named_def)
    have h1: "Name (?h1 ! a) = assigned (Name (h ! a)) [v]" "\<forall>b. b \<noteq> a \<longrightarrow> ?h1 ! b = h ! b"
      "length ?h1 = length h"
      using Cons.prems(1) by simp_all
    have s1: "?s1 = None \<longleftrightarrow> saved = None \<and> storable v" by simp
    have as: "assigned (assigned (Name (h ! a)) [v]) (members_named ''name'' ms)
              = assigned (Name (h ! a)) (v # members_named ''name'' ms)"
      by (cases v) simp_all
    from Cons.IH[OF len run] show ?thesis
      unfolding mn h1 s1 as by simp
  qed
qed


lemma assigned_step: "assigned (assigned old [v]) vs = assigned old (v # vs)"
  by (cases v) simp_all

lemma saved_step:
  "((if storable v then saved else saveError e saved) = None) = (saved = None \<and> storable v)"
  by simp

lemma members_named_Cons:
  "members_named f ((k, v) # ms) = (if names f k then v # members_named f ms else members_named f ms)"
  by (simp add: members_named_def)

lemma object_grv1_char:
  "n \<le> length h \<Longrightarrow> (\<forall>a. GreetRequest r = Some a \<longrightarrow> n \<le> a \<and> a < length h) \<Longrightarrow>
   object_grv1 ms r h saved = (r', h', saved') \<Longrightarrow>
     take n h' = take n h \<and> n \<le> length h'
     \<and> FirstName r' = assigned (FirstName r) (members_named ''firstName'' ms)
     \<and> LastName r' = assigned (LastName r) (members_named ''lastName'' ms)
     \<and> (saved' = None \<longleftrightarrow>
          saved = None \<and> list_all storable (members_named ''firstName'' ms)
          \<and> list_all storable (members_named ''lastName'' ms)
          \<and> list_all storable (members_named ''name'' ms))"
proof (induction ms arbitrary: r h saved)
  case Nil
  then show ?case by (simp add: members_named_def)
next
  case (Cons m ms)
  obtain k v where m: "m = (k, v)" by (cases m)
  let ?s1 = "\<lambda>f. if storable v then saved else saveError (UnmarshalTypeError (kind_of v) f) saved"
  consider (first) "names ''firstName'' k" | (last) "names ''lastName'' k"
    | (name) "names ''name'' k"
    | (none) "\<not> names ''firstName'' k" "\<not> names ''lastName'' k" "\<not> names ''name'' k"
    by blast
  then show ?case
  proof cases
    case none
    with Cons.prems(3) m have "object_grv1 ms r h saved = (r', h', saved')"
      by (simp add: find_field_grv1)
    from Cons.IH[OF Cons.prems(1,2) this] none show ?thesis
      unfolding m members_named_Cons by simp
  next
    case first
    note others = names_distinct(1,2)[OF first]
    let ?r1 = "r\<lparr>FirstName := assigned (FirstName r) [v]\<rparr>"
    from Cons.prems(3) m first
    have run: "object_grv1 ms ?r1 h (?s1 ''firstName'') = (r', h', saved')"
      by (simp add: find_field_grv1 store_string_eq)
    have p2: "\<forall>a. GreetRequest ?r1 = Some a \<longrightarrow> n \<le> a \<and> a < length h"
      using Cons.prems(2) by simp
    from Cons.IH[OF Cons.prems(1) p2 run] first others show ?thesis
      unfolding m members_named_Cons saved_step by (simp add: assigned_step)
  next
    case last
    have others: "\<not> names ''firstName'' k" "\<not> names ''name'' k"
      using last names_distinct by blast+
    let ?r1 = "r\<lparr>LastName := assigned (LastName r) [v]\<rparr>"
    from Cons.prems(3) m last others
    have run: "object_grv1 ms ?r1 h (?s1 ''lastName'') = (r', h', saved')"
      by (simp add: find_field_grv1 store_string_eq)
    have p2: "\<forall>a. GreetRequest ?r1 = Some a \<longrightarrow> n \<le> a \<and> a < length h"
      using Cons.prems(2) by simp
    from Cons.IH[OF Cons.prems(1) p2 run] last others show ?thesis
      unfolding m members_named_Cons saved_step by (auto simp: assigned_step)
  next
    case name
    have others: "\<not> names ''firstName'' k" "\<not> names ''lastName'' k"
      using name names_distinct by blast+
    obtain a h1 where alloc:
      "(case GreetRequest r of Some a \<Rightarrow> (a, h) | None \<Rightarrow> new_GreetRequest h) = (a, h1)"
      by (cases "case GreetRequest r of Some a \<Rightarrow> (a, h) | None \<Rightarrow> new_GreetRequest h")
    have a: "n \<le> a" "a < length h1" "length h \<le> length h1" "take n h1 = take n h"
      using alloc Cons.prems(1,2)
      by (auto simp: new_GreetRequest_def split: option.splits)
    let ?r1 = "r\<lparr>GreetRequest := Some a\<rparr>"
    let ?h2 = "h1[a := (h1 ! a)\<lparr>Name := assigned (Name (h1 ! a)) [v]\<rparr>]"
    from Cons.prems(3) m name others alloc
    have run: "object_grv1 ms ?r1 ?h2 (?s1 ''name'') = (r', h', saved')"
      by (simp add: find_field_grv1 store_string_eq)
    have p1: "n \<le> length ?h2" using a Cons.prems(1) by simp
    have p2: "\<forall>a'. GreetRequest ?r1 = Some a' \<longrightarrow> n \<le> a' \<and> a' < length ?h2"
      using a by simp
    have tk: "take n ?h2 = take n h" using a by simp
    from Cons.IH[OF p1 p2 run] name others tk show ?thesis
      unfolding m members_named_Cons saved_step by auto
  qed
qed

lemma object_GreetRequest_frame:
  "object_GreetRequest a ms h saved = (h', saved') \<Longrightarrow>
     length h' = length h \<and> (\<forall>b. b \<noteq> a \<longrightarrow> h' ! b = h ! b)"
proof (induction ms arbitrary: h saved)
  case Nil
  then show ?case by simp
next
  case (Cons m ms)
  obtain k v where m: "m = (k, v)" by (cases m)
  show ?case
  proof (cases "names ''name'' k")
    case False
    with Cons.prems m have "object_GreetRequest a ms h saved = (h', saved')"
      by (simp add: find_field_GreetRequest)
    from Cons.IH[OF this] show ?thesis .
  next
    case True
    let ?h1 = "h[a := (h ! a)\<lparr>Name := assigned (Name (h ! a)) [v]\<rparr>]"
    let ?s1 = "if storable v then saved else saveError (UnmarshalTypeError (kind_of v) ''name'') saved"
    from Cons.prems m True have run: "object_GreetRequest a ms ?h1 ?s1 = (h', saved')"
      by (simp add: find_field_GreetRequest store_string_eq)
    from Cons.IH[OF run] show ?thesis by simp
  qed
qed

lemma value_GreetRequest_frame:
  "value_GreetRequest a v h = (h', saved) \<Longrightarrow>
     length h' = length h \<and> (\<forall>b. b \<noteq> a \<longrightarrow> h' ! b = h ! b)"
  unfolding value_GreetRequest_def
  by (cases v) (auto dest: object_GreetRequest_frame)

lemma members_named_Nil [simp]: "members_named f [] = []"
  by (simp add: members_named_def)

lemma value_GreetRequest_char:
  "a < length h \<Longrightarrow> value_GreetRequest a v h = (h', saved) \<Longrightarrow>
     (saved = None \<longleftrightarrow> fits fields_GreetRequest v)
     \<and> Name (h' ! a) = assigned (Name (h ! a)) (members_named ''name'' (members v))"
proof (cases v)
  case (JObject ms)
  assume "a < length h" "value_GreetRequest a v h = (h', saved)"
  with JObject object_GreetRequest_char[of a h ms None h' saved] show ?thesis
    by (simp add: value_GreetRequest_def fields_GreetRequest_def)
qed (auto simp: value_GreetRequest_def)

lemma value_grv1_char:
  "value_grv1 v \<lparr>GreetRequest = None, FirstName = [], LastName = []\<rparr> h = (r', h', saved) \<Longrightarrow>
     take (length h) h' = h \<and> length h \<le> length h'
     \<and> FirstName r' = assigned [] (members_named ''firstName'' (members v))
     \<and> LastName r' = assigned [] (members_named ''lastName'' (members v))
     \<and> (saved = None \<longleftrightarrow> fits fields_grv1 v)"
proof (cases v)
  case (JObject ms)
  assume "value_grv1 v \<lparr>GreetRequest = None, FirstName = [], LastName = []\<rparr> h = (r', h', saved)"
  with JObject have run:
    "object_grv1 ms \<lparr>GreetRequest = None, FirstName = [], LastName = []\<rparr> h None = (r', h', saved)"
    by (simp add: value_grv1_def)
  have "take (length h) h' = take (length h) h \<and> length h \<le> length h'
     \<and> FirstName r' = assigned (FirstName \<lparr>GreetRequest = None, FirstName = [], LastName = []\<rparr>) (members_named ''firstName'' ms)
     \<and> LastName r' = assigned (LastName \<lparr>GreetRequest = None, FirstName = [], LastName = []\<rparr>) (members_named ''lastName'' ms)
     \<and> (saved = None \<longleftrightarrow>
          None = (None :: error option) \<and> list_all storable (members_named ''firstName'' ms)
          \<and> list_all storable (members_named ''lastName'' ms)
          \<and> list_all storable (members_named ''name'' ms))"
    by (rule object_grv1_char[OF _ _ run]) simp_all
  with JObject show ?thesis by (simp add: fields_grv1_def)
qed (auto simp: value_grv1_def)

lemma Unmarshal_grv1_frame:
  "Unmarshal_grv1 b \<lparr>GreetRequest = None, FirstName = [], LastName = []\<rparr> h = (r', h', saved) \<Longrightarrow>
     take (length h) h' = h \<and> length h \<le> length h'"
  unfolding Unmarshal_grv1_def
  by (cases "checkValid b") (auto dest: value_grv1_char)

lemma nth_of_take: "take n xs = ys \<Longrightarrow> c < n \<Longrightarrow> xs ! c = ys ! c"
  by (metis nth_take)

lemma UnmarshalJSON_frame:
  assumes "UnmarshalJSON r b h = (out, h')"
  shows "length h \<le> length h'"
    and "\<forall>c<length h. GreetRequest r \<noteq> Some c \<longrightarrow> h' ! c = h ! c"
    and "out \<noteq> Returned None \<longrightarrow> take (length h) h' = h"
proof -
  obtain v1r h1 err where u:
    "Unmarshal_grv1 b \<lparr>GreetRequest = None, FirstName = [], LastName = []\<rparr> h = (v1r, h1, err)"
    by (cases "Unmarshal_grv1 b \<lparr>GreetRequest = None, FirstName = [], LastName = []\<rparr> h") auto
  from Unmarshal_grv1_frame[OF u] have f: "take (length h) h1 = h" "length h \<le> length h1"
    by simp_all
  have nth: "\<And>c. c < length h \<Longrightarrow> h1 ! c = h ! c"
    using f(1) by (rule nth_of_take)
  from assms u f show "length h \<le> length h'"
    by (auto simp: UnmarshalJSON_def split: option.splits)
  from assms u nth show "\<forall>c<length h. GreetRequest r \<noteq> Some c \<longrightarrow> h' ! c = h ! c"
    by (auto simp: UnmarshalJSON_def split: option.splits)
  from assms u f show "out \<noteq> Returned None \<longrightarrow> take (length h) h' = h"
    by (auto simp: UnmarshalJSON_def split: option.splits)
qed

lemma Decoder_Decode_frame:
  assumes "Decoder_Decode v r h = (out, h', rest)"
  shows "length h \<le> length h'"
    and "\<forall>c<length h. v \<noteq> Pointer (Some c) \<and> (\<forall>u. v = Unmarshaler u \<longrightarrow> GreetRequest u \<noteq> Some c)
            \<longrightarrow> h' ! c = h ! c"
  using assms
  unfolding Decoder_Decode_def
  by (auto split: sum.splits target.splits option.splits prod.splits
           dest: UnmarshalJSON_frame value_GreetRequest_frame)

lemma Decode_v1_value:
  assumes rv: "readValue payload = Inr (b, rest)" and cv: "checkValid b = Inr v"
    and gr: "gr < length h"
  shows "fits fields_grv1 v \<Longrightarrow>
           \<exists>h'. Decode (Some gr) ''v1'' payload h = (Returned None, h', rest)
              \<and> Name (h' ! gr) = assigned [] (members_named ''firstName'' (members v)) @ '' ''
                    @ assigned [] (members_named ''lastName'' (members v))"
    and "\<not> fits fields_grv1 v \<Longrightarrow>
           \<exists>e h'. Decode (Some gr) ''v1'' payload h = (Returned (Some e), h', rest)"
proof -
  let ?z = "\<lparr>GreetRequest = None, FirstName = [], LastName = []\<rparr>"
  obtain v1r h1 err where val: "value_grv1 v ?z h = (v1r, h1, err)"
    by (cases "value_grv1 v ?z h") auto
  from value_grv1_char[OF val]
  have c: "length h \<le> length h1" "FirstName v1r = assigned [] (members_named ''firstName'' (members v))"
    "LastName v1r = assigned [] (members_named ''lastName'' (members v))"
    "err = None \<longleftrightarrow> fits fields_grv1 v"
    by simp_all
  have u: "Unmarshal_grv1 b ?z h = (v1r, h1, err)"
    using cv val by (simp add: Unmarshal_grv1_def)
  have d: "Decode (Some gr) ''v1'' payload h =
            (case UnmarshalJSON (fromV1 (Some gr)) b h of (out, h') \<Rightarrow> (out, h', rest))"
    using rv by (simp add: Decode_def Decoder_Decode_def)
  {
    assume "fits fields_grv1 v"
    with c have "err = None" by simp
    with u have "UnmarshalJSON (fromV1 (Some gr)) b h =
       (Returned None, h1[gr := (h1 ! gr)\<lparr>Name := FirstName v1r @ '' '' @ LastName v1r\<rparr>])"
      by (simp add: UnmarshalJSON_def fromV1_def)
    with d c gr show "\<exists>h'. Decode (Some gr) ''v1'' payload h = (Returned None, h', rest)
              \<and> Name (h' ! gr) = assigned [] (members_named ''firstName'' (members v)) @ '' ''
                    @ assigned [] (members_named ''lastName'' (members v))"
      by simp
  }
  {
    assume "\<not> fits fields_grv1 v"
    with c obtain e where "err = Some e" by (cases err) auto
    with u have "UnmarshalJSON (fromV1 (Some gr)) b h = (Returned (Some e), h1)"
      by (simp add: UnmarshalJSON_def fromV1_def)
    with d show "\<exists>e h'. Decode (Some gr) ''v1'' payload h = (Returned (Some e), h', rest)"
      by simp
  }
qed

lemma Decode_default_value:
  assumes rv: "readValue payload = Inr (b, rest)" and cv: "checkValid b = Inr v"
    and gr: "gr < length h" and ver: "version \<noteq> ''v1''"
  shows "\<exists>h' saved. Decode (Some gr) version payload h = (Returned saved, h', rest)
           \<and> (saved = None \<longleftrightarrow> fits fields_GreetRequest v)
           \<and> Name (h' ! gr) = assigned (Name (h ! gr)) (members_named ''name'' (members v))"
proof -
  obtain h' saved where val: "value_GreetRequest gr v h = (h', saved)"
    by (cases "value_GreetRequest gr v h") auto
  have "Decode (Some gr) version payload h = (Returned saved, h', rest)"
    using rv cv ver val by (simp add: Decode_def Decoder_Decode_def)
  with value_GreetRequest_char[OF gr val] show ?thesis by simp
qed


section \<open>The scanner reads a prefix\<close>

lemma complete_not_EndBefore: "complete v st \<noteq> EndBefore w"
  by (induction v st rule: complete.induct) simp_all

lemma stateEndValue_not_EndBefore: "stateEndValue st c \<noteq> EndBefore w"
  by (induction st c rule: stateEndValue.induct) (simp_all add: complete_not_EndBefore)

lemma number_end_EndBefore:
  "number_end t st c = EndBefore w \<Longrightarrow> st = [] \<and> w = JNumber (rev t)"
  by (auto simp: number_end_def stateEndValue_not_EndBefore split: list.splits scan.splits)

lemma state0_EndBefore:
  "state0 t st c = EndBefore w \<Longrightarrow> st = [] \<and> w = JNumber (rev t)"
  by (auto simp: state0_def dest: number_end_EndBefore split: if_splits)

lemma stateBeginValue_not_EndBefore: "stateBeginValue st c \<noteq> EndBefore w"
  by (simp add: stateBeginValue_def pushParseState_def)

lemma stateBeginString_not_EndBefore: "stateBeginString st c \<noteq> EndBefore w"
  by (simp add: stateBeginString_def)

lemma scan_step_EndBefore:
  "scan_step s st c = EndBefore w \<Longrightarrow> scan_eof s st = Some w \<and> (\<exists>t. w = JNumber t)"
proof (induction s st c rule: scan_step.induct)
  case (1 st c)
  then show ?case by (simp add: stateBeginValue_not_EndBefore)
next
  case (2 st c)
  then show ?case
    by (simp add: stateBeginValue_not_EndBefore stateEndValue_not_EndBefore split: if_splits)
next
  case (3 st c)
  then show ?case
    by (simp add: stateBeginString_not_EndBefore stateEndValue_not_EndBefore split: if_splits)
next
  case (4 st c)
  then show ?case by (simp add: stateBeginString_not_EndBefore)
next
  case (5 st c)
  then show ?case by (simp add: stateEndValue_not_EndBefore)
next
  case (6 raw st c)
  then show ?case by (simp add: complete_not_EndBefore split: if_splits option.splits)
next
  case (10 x v st c)
  then show ?case by (simp add: complete_not_EndBefore split: if_splits)
next
  case (13 t st c)
  then show ?case by (auto dest: state0_EndBefore split: if_splits)
next
  case (14 t st c)
  then show ?case by (auto dest: state0_EndBefore)
next
  case (16 t st c)
  then show ?case by (auto dest: number_end_EndBefore split: if_splits)
next
  case (17 t st c)
  then show ?case by (simp add: stateESign_def split: if_splits)
next
  case (18 t st c)
  then show ?case by (simp add: stateESign_def split: if_splits)
next
  case (19 t st c)
  then show ?case by (auto dest: number_end_EndBefore split: if_splits)
qed (simp_all split: if_splits)

lemma scan_eof_Some: "scan_eof s st = Some v \<Longrightarrow> \<exists>t. v = JNumber t"
  by (induction s st rule: scan_eof.induct) auto

lemma scan_run_prefix:
  "scan_run s st inp = Inr (v, rest) \<Longrightarrow>
     \<exists>pre. inp = pre @ rest \<and> scan_run s st pre = Inr (v, [])
       \<and> ((\<forall>t. v \<noteq> JNumber t) \<longrightarrow> pre \<noteq> [] \<and> (\<forall>t. scan_run s st (pre @ t) = Inr (v, t)))"
proof (induction inp arbitrary: s st)
  case Nil
  then have e: "scan_eof s st = Some v" and r: "rest = []"
    by (auto split: option.splits)
  from scan_eof_Some[OF e] e r show ?case by auto
next
  case (Cons c cs)
  show ?case
  proof (cases "scan_step s st c")
    case ScanError
    with Cons.prems show ?thesis by simp
  next
    case (Continue s' st')
    with Cons.prems have "scan_run s' st' cs = Inr (v, rest)" by simp
    from Cons.IH[OF this] obtain pre where pre: "cs = pre @ rest"
      "scan_run s' st' pre = Inr (v, [])"
      "(\<forall>t. v \<noteq> JNumber t) \<longrightarrow> (\<forall>t. scan_run s' st' (pre @ t) = Inr (v, t))"
      by blast
    have "c # cs = (c # pre) @ rest" using pre(1) by simp
    moreover have "scan_run s st (c # pre) = Inr (v, [])" using pre(2) Continue by simp
    moreover have "(\<forall>t. v \<noteq> JNumber t) \<longrightarrow> c # pre \<noteq> []
        \<and> (\<forall>t. scan_run s st ((c # pre) @ t) = Inr (v, t))"
      using pre(3) Continue by simp
    ultimately show ?thesis by blast
  next
    case (End w)
    with Cons.prems have "v = w" "rest = cs" by simp_all
    with End have "c # cs = [c] @ rest" "scan_run s st [c] = Inr (v, [])"
      "\<forall>t. scan_run s st ([c] @ t) = Inr (v, t)" by simp_all
    then show ?thesis by blast
  next
    case (EndBefore w)
    with Cons.prems have vr: "v = w" "rest = c # cs" by simp_all
    from scan_step_EndBefore[OF EndBefore] vr
    have "scan_run s st [] = Inr (v, [])" "\<exists>t. v = JNumber t" by simp_all
    with vr show ?thesis by auto
  qed
qed

lemma dropWhile_hd: "dropWhile P xs = y # ys \<Longrightarrow> \<not> P y"
  by (metis hd_dropWhile list.sel(1) list.simps(3))

lemma readValue_prefix:
  assumes "readValue payload = Inr (b, rest)"
  shows "\<exists>v ws. checkValid b = Inr v \<and> payload = ws @ b @ rest \<and> list_all isSpace ws
           \<and> ((\<forall>t. v \<noteq> JNumber t) \<longrightarrow> (\<forall>t. readValue (ws @ b @ t) = Inr (b, t)))"
proof -
  let ?s = "dropWhile isSpace payload"
  let ?ws = "takeWhile isSpace payload"
  from assms obtain v where run: "scan_run BeginValue [] ?s = Inr (v, rest)"
    and b: "b = take (length ?s - length rest) ?s"
    by (auto simp: readValue_def Let_def split: sum.splits scan_failure.splits)
  from scan_run_prefix[OF run] obtain pre where pre: "?s = pre @ rest"
    "scan_run BeginValue [] pre = Inr (v, [])"
    "(\<forall>t. v \<noteq> JNumber t) \<longrightarrow> pre \<noteq> [] \<and> (\<forall>t. scan_run BeginValue [] (pre @ t) = Inr (v, t))"
    by blast
  have bp: "b = pre" using b pre(1) by simp
  have cv: "checkValid b = Inr v" using pre(2) bp by (simp add: checkValid_def)
  have split: "payload = ?ws @ b @ rest"
    using pre(1) bp by (metis takeWhile_dropWhile_id)
  have ws: "list_all isSpace ?ws"
    by (simp add: list_all_iff) (meson set_takeWhileD)
  have "\<forall>t. readValue (?ws @ b @ t) = Inr (b, t)" if nn: "\<forall>t. v \<noteq> JNumber t"
  proof
    fix t
    from nn pre(3) have ne: "pre \<noteq> []" and ext: "scan_run BeginValue [] (pre @ t) = Inr (v, t)"
      by simp_all
    from ne obtain y ys where y: "pre = y # ys" by (cases pre) auto
    with pre(1) have "dropWhile isSpace payload = y # (ys @ rest)" by simp
    from dropWhile_hd[OF this] have ny: "\<not> isSpace y" .
    have dw: "dropWhile isSpace (?ws @ b @ t) = b @ t"
      using ny y bp ws by (simp add: dropWhile_append list_all_iff)
    show "readValue (?ws @ b @ t) = Inr (b, t)"
      unfolding readValue_def dw Let_def using ext bp by simp
  qed
  with cv split ws show ?thesis by blast
qed

section \<open>What a call of \<open>Decode\<close> returns\<close>


lemma Decode_read_failure:
  "readValue payload = Inl e \<Longrightarrow> Decode gr version payload h = (Returned (Some e), h, [])"
  by (simp add: Decode_def Decoder_Decode_def)

lemma Decode_outcome:
  assumes "gr < length h"
  shows "\<exists>saved h' rest. Decode (Some gr) version payload h = (Returned saved, h', rest)
            \<and> (saved = None \<longleftrightarrow> \<not> rejected version payload)"
proof (cases "readValue payload")
  case (Inl e)
  then show ?thesis by (simp add: Decode_read_failure rejected_def)
next
  case (Inr p)
  obtain b rest where p: "p = (b, rest)" by (cases p)
  from readValue_prefix[of payload b rest] Inr p obtain v where cv: "checkValid b = Inr v"
    by auto
  have rj: "rejected version payload \<longleftrightarrow> \<not> fits (fields_of version) v"
    using Inr p cv by (simp add: rejected_def)
  show ?thesis
  proof (cases "version = ''v1''")
    case True
    show ?thesis
    proof (cases "fits fields_grv1 v")
      case f: True
      from Decode_v1_value(1)[OF _ cv assms f, of payload rest] Inr p True rj f
      show ?thesis by (auto simp: fields_of_def)
    next
      case f: False
      from Decode_v1_value(2)[OF _ cv assms f, of payload rest] Inr p True rj f
      show ?thesis by (auto simp: fields_of_def)
    qed
  next
    case False
    from Decode_default_value[OF _ cv assms False, of payload rest] Inr p False rj
    show ?thesis by (auto simp: fields_of_def)
  qed
qed

section \<open>The claims\<close>

text \<open>
  In the theorems below a payload is described by what the decoder reads of it:
  \<open>readValue payload = Inr (b, rest)\<close> says that the first JSON value of the stream has
  the text \<open>b\<close> and is followed by \<open>rest\<close>, and \<open>checkValid b = Inr v\<close> that this text
  denotes the value \<open>v\<close>. The receiver is a record of the store: \<open>gr < length h\<close>.
\<close>

text \<open>
  Claim C1, as amended. For every payload whose first JSON value is an object with one
  member naming \<^verbatim>\<open>firstName\<close>, a string \<open>F\<close>, one member naming \<^verbatim>\<open>lastName\<close>, a
  string \<open>L\<close>, and in which every member naming \<^verbatim>\<open>name\<close> holds a string or
  \<^verbatim>\<open>null\<close>, decoding under \<^verbatim>\<open>"v1"\<close> succeeds and sets the record's name to
  \<open>F\<close>, one space, \<open>L\<close>: no trimming, no check that either half is non-empty.

  The condition on \<^verbatim>\<open>name\<close> cannot be dropped: the struct the adapter unmarshals into
  embeds \<^verbatim>\<open>*GreetRequest\<close>, so a \<^verbatim>\<open>name\<close> member is decoded too, and one that is a
  number makes the call fail although \<^verbatim>\<open>firstName\<close> and \<^verbatim>\<open>lastName\<close> are strings.
\<close>

theorem v1_concatenates:
  assumes "readValue payload = Inr (b, rest)" and "checkValid b = Inr (JObject ms)"
    and "members_named ''firstName'' ms = [JString F]"
    and "members_named ''lastName'' ms = [JString L]"
    and "list_all storable (members_named ''name'' ms)"
    and "gr < length h"
  shows "\<exists>h'. Decode (Some gr) ''v1'' payload h = (Returned None, h', rest)
           \<and> Name (h' ! gr) = F @ '' '' @ L"
proof -
  have "fits fields_grv1 (JObject ms)"
    using assms(3,4,5) by (simp add: fields_grv1_def)
  from Decode_v1_value(1)[OF assms(1,2,6) this] assms(3,4) show ?thesis by simp
qed

theorem v1_concatenates_witness:
  \<open>\<exists>h'. Decode (Some 0) ''v1'' ''{"firstName": "John", "lastName": "Sample"}'' [\<lparr>Name = []\<rparr>]
            = (Returned None, h', [])
         \<and> Name (h' ! 0) = ''John Sample''\<close>
proof -
  have rv: \<open>readValue ''{"firstName": "John", "lastName": "Sample"}''
             = Inr (''{"firstName": "John", "lastName": "Sample"}'', [])\<close>
    by code_simp
  have cv: \<open>checkValid ''{"firstName": "John", "lastName": "Sample"}''
             = Inr (JObject [(''firstName'', JString ''John''), (''lastName'', JString ''Sample'')])\<close>
    by code_simp
  have f: "members_named ''firstName''
             [(''firstName'', JString ''John''), (''lastName'', JString ''Sample'')] = [JString ''John'']"
    by code_simp
  have l: "members_named ''lastName''
             [(''firstName'', JString ''John''), (''lastName'', JString ''Sample'')] = [JString ''Sample'']"
    by code_simp
  have n: "list_all storable (members_named ''name''
             [(''firstName'', JString ''John''), (''lastName'', JString ''Sample'')])"
    by code_simp
  have g: "(0::nat) < length [\<lparr>Name = []\<rparr>]" by simp
  from v1_concatenates[OF rv cv f l n g] show ?thesis by simp
qed

text \<open>
  Claim C1 as stated fails at this payload: a valid JSON object with the string fields
  \<^verbatim>\<open>firstName\<close> and \<^verbatim>\<open>lastName\<close>, whose decoding under \<^verbatim>\<open>"v1"\<close> returns an error and
  leaves the record's name unset.
\<close>

theorem v1_name_member_counterexample:
  \<open>readValue ''{"firstName":"John","lastName":"Sample","name":1}''
      = Inr (''{"firstName":"John","lastName":"Sample","name":1}'', [])
   \<and> checkValid ''{"firstName":"John","lastName":"Sample","name":1}''
      = Inr (JObject [(''firstName'', JString ''John''), (''lastName'', JString ''Sample''),
                      (''name'', JNumber ''1'')])
   \<and> Decode (Some 0) ''v1'' ''{"firstName":"John","lastName":"Sample","name":1}'' [\<lparr>Name = []\<rparr>]
      = (Returned (Some (UnmarshalTypeError ''number'' ''name'')), [\<lparr>Name = []\<rparr>, \<lparr>Name = []\<rparr>], [])\<close>
  by code_simp

text \<open>
  Claim C2. For every payload that is a JSON object of the current shape with
  \<^verbatim>\<open>name\<close> = \<open>N\<close> (one member naming \<^verbatim>\<open>name\<close>, a string \<open>N\<close>), decoding under
  any tag other than \<^verbatim>\<open>"v1"\<close> succeeds and sets the record's name to \<open>N\<close> exactly.
\<close>

theorem default_copies_name:
  assumes "readValue payload = Inr (b, rest)" and "checkValid b = Inr (JObject ms)"
    and "members_named ''name'' ms = [JString N]"
    and "version \<noteq> ''v1''"
    and "gr < length h"
  shows "\<exists>h'. Decode (Some gr) version payload h = (Returned None, h', rest)
           \<and> Name (h' ! gr) = N"
proof -
  have "fits fields_GreetRequest (JObject ms)"
    using assms(3) by (simp add: fields_GreetRequest_def)
  with Decode_default_value[OF assms(1,2,5,4)] assms(3) show ?thesis by auto
qed

theorem default_copies_name_witness:
  \<open>\<exists>h'. Decode (Some 0) ''v2'' ''{"name":"Jane Sample"}'' [\<lparr>Name = []\<rparr>] = (Returned None, h', [])
         \<and> Name (h' ! 0) = ''Jane Sample''\<close>
proof -
  have rv: \<open>readValue ''{"name":"Jane Sample"}'' = Inr (''{"name":"Jane Sample"}'', [])\<close>
    by code_simp
  have cv: \<open>checkValid ''{"name":"Jane Sample"}'' = Inr (JObject [(''name'', JString ''Jane Sample'')])\<close>
    by code_simp
  have n: "members_named ''name'' [(''name'', JString ''Jane Sample'')] = [JString ''Jane Sample'']"
    by code_simp
  have v: "''v2'' \<noteq> ''v1''" by simp
  have g: "(0::nat) < length [\<lparr>Name = []\<rparr>]" by simp
  from default_copies_name[OF rv cv n v g] show ?thesis by simp
qed

text \<open>
  Claim C3. Dispatch on the version tag is total, with one explicit case and one default
  case: for every tag other than \<^verbatim>\<open>"v1"\<close> (\<^verbatim>\<open>"v2"\<close>, the empty string, any unknown
  string) \<open>Decode\<close> is the library's decode of the payload directly into the canonical
  record, the same as under \<^verbatim>\<open>"v2"\<close>, and it returns an error exactly when the payload
  is rejected as a payload of the current shape: the tag by itself is never an error.
\<close>

theorem default_dispatch:
  "version \<noteq> ''v1'' \<Longrightarrow>
     Decode gr version r h = Decoder_Decode (Pointer gr) r h
     \<and> Decode gr version r h = Decode gr ''v2'' r h
     \<and> (\<forall>a<length h. (\<exists>e h' rest. Decode (Some a) version r h = (Returned (Some e), h', rest))
                         \<longleftrightarrow> rejected ''v2'' r)"
proof (intro conjI allI impI)
  assume v: "version \<noteq> ''v1''"
  then show "Decode gr version r h = Decoder_Decode (Pointer gr) r h"
    and "Decode gr version r h = Decode gr ''v2'' r h"
    by (simp_all add: Decode_def)
  fix a assume "a < length h"
  from v have "fields_of version = fields_of ''v2''" by (simp add: fields_of_def)
  then have rj: "rejected version r = rejected ''v2'' r"
    by (simp add: rejected_def split: sum.splits prod.splits)
  from Decode_outcome[OF \<open>a < length h\<close>, of version r]
  show "(\<exists>e h' rest. Decode (Some a) version r h = (Returned (Some e), h', rest))
          \<longleftrightarrow> rejected ''v2'' r"
    unfolding rj by auto
qed

theorem default_dispatch_witness:
  \<open>''garbage'' \<noteq> ''v1''
   \<and> Decode (Some 0) ''garbage'' ''{"name":"Jane Sample"}'' [\<lparr>Name = []\<rparr>]
       = Decode (Some 0) ''v2'' ''{"name":"Jane Sample"}'' [\<lparr>Name = []\<rparr>]
   \<and> Decode (Some 0) [] ''{"name":"Jane Sample"}'' [\<lparr>Name = []\<rparr>]
       = (Returned None, [\<lparr>Name = ''Jane Sample''\<rparr>], [])\<close>
proof -
  have a: "''garbage'' \<noteq> ''v1''" by simp
  have b: \<open>Decode (Some 0) ''v2'' ''{"name":"Jane Sample"}'' [\<lparr>Name = []\<rparr>]
       = (Returned None, [\<lparr>Name = ''Jane Sample''\<rparr>], [])\<close>
    by code_simp
  have c: "[] \<noteq> ''v1''" by simp
  note d = default_dispatch[THEN conjunct2, THEN conjunct1]
  from d[OF a] d[OF c] a b show ?thesis by simp
qed



text \<open>
  Claim C5, as amended. For every payload that is rejected under the tag (its first JSON
  value cannot be read, or is neither \<^verbatim>\<open>null\<close> nor an object, or is an object with a
  member that names a field of the tag's struct and holds neither a string nor
  \<^verbatim>\<open>null\<close>), \<open>Decode\<close> returns an error, on the \<^verbatim>\<open>"v1"\<close> path and on the default path;
  a failure to read the value is returned as the library reported it; and the handler
  answers with status 400 and the error's message as body. The bytes after the first
  value are not checked.
\<close>

theorem rejected_payload_fails:
  assumes "rejected version payload"
  shows "(\<forall>gr h. gr < length h \<longrightarrow>
            (\<exists>e h' rest. Decode (Some gr) version payload h = (Returned (Some e), h', rest)))
       \<and> (\<forall>e gr h. readValue payload = Inl e \<longrightarrow>
            Decode gr version payload h = (Returned (Some e), h, []))
       \<and> (\<exists>e h' rest. Decode (Some 0) version payload [\<lparr>Name = []\<rparr>] = (Returned (Some e), h', rest)
            \<and> GreetHandler Error version payload
                = Some \<lparr>status = 400, body = Text (Error e @ [CHR 0x0A])\<rparr>)"
proof (intro conjI allI impI)
  fix gr :: nat and h :: heap
  assume "gr < length h"
  from Decode_outcome[OF this, of version payload] assms
  show "\<exists>e h' rest. Decode (Some gr) version payload h = (Returned (Some e), h', rest)"
    by auto
next
  fix e gr h
  assume "readValue payload = Inl e"
  then show "Decode gr version payload h = (Returned (Some e), h, [])"
    by (rule Decode_read_failure)
next
  have "(0::nat) < length [\<lparr>Name = []\<rparr>]" by simp
  from Decode_outcome[OF this, of version payload] assms
  obtain e h' rest where d: "Decode (Some 0) version payload [\<lparr>Name = []\<rparr>] = (Returned (Some e), h', rest)"
    by auto
  then have "GreetHandler Error version payload
                = Some \<lparr>status = 400, body = Text (Error e @ [CHR 0x0A])\<rparr>"
    by (simp add: GreetHandler_def new_GreetRequest_def)
  with d show "\<exists>e h' rest. Decode (Some 0) version payload [\<lparr>Name = []\<rparr>] = (Returned (Some e), h', rest)
            \<and> GreetHandler Error version payload
                = Some \<lparr>status = 400, body = Text (Error e @ [CHR 0x0A])\<rparr>"
    by blast
qed

theorem rejected_payload_fails_witness:
  \<open>rejected ''v1'' ''{"firstName": "John",''
   \<and> (\<exists>e h' rest. Decode (Some 0) ''v1'' ''{"firstName": "John",'' [\<lparr>Name = []\<rparr>]
                      = (Returned (Some e), h', rest)
          \<and> GreetHandler (\<lambda>e. ''bad request'') ''v1'' ''{"firstName": "John",''
               = Some \<lparr>status = 400, body = Text (''bad request'' @ [CHR 0x0A])\<rparr>)\<close>
proof -
  have r: \<open>rejected ''v1'' ''{"firstName": "John",''\<close>
    by code_simp
  from rejected_payload_fails[OF r, of "\<lambda>e. ''bad request''"] r show ?thesis by blast
qed

text \<open>
  Claim C5 as stated fails at this payload. It is not valid JSON text (a second closing
  brace follows the object), yet \<open>Decode\<close> succeeds under \<^verbatim>\<open>"v1"\<close> and under \<^verbatim>\<open>"v2"\<close>,
  and the handler answers with status 200.
\<close>

theorem trailing_brace_counterexample:
  \<open>checkValid ''{"firstName":"John","lastName":"Sample"}}'' = Inl SyntaxError
   \<and> Decode (Some 0) ''v1'' ''{"firstName":"John","lastName":"Sample"}}'' [\<lparr>Name = []\<rparr>]
       = (Returned None, [\<lparr>Name = ''John Sample''\<rparr>], ''}'')
   \<and> Decode (Some 0) ''v2'' ''{"firstName":"John","lastName":"Sample"}}'' [\<lparr>Name = []\<rparr>]
       = (Returned None, [\<lparr>Name = []\<rparr>], ''}'')
   \<and> GreetHandler (\<lambda>e. ''bad request'') ''v1'' ''{"firstName":"John","lastName":"Sample"}}''
       = Some \<lparr>status = 200, body = Json [(''greeting'', ''Hello John Sample!'')]\<rparr>\<close>
  by code_simp






text \<open>
  Claim C8. \<open>Decode\<close> has no side effect beyond the record it is called on: for every
  tag and payload, every cell of the store that existed before the call, other than the
  receiver's, holds after the call what it held before. (The store may have grown: the
  version-1 path allocates a record of its own for a \<^verbatim>\<open>name\<close> member of the payload.)
\<close>

theorem Decode_frame:
  assumes "Decode gr version payload h = (out, h', rest)"
  shows "length h \<le> length h' \<and> (\<forall>c<length h. gr \<noteq> Some c \<longrightarrow> h' ! c = h ! c)"
proof (cases "version = ''v1''")
  case True
  with assms have d: "Decoder_Decode (Unmarshaler (fromV1 gr)) payload h = (out, h', rest)"
    by (simp add: Decode_def)
  from Decoder_Decode_frame[OF d] show ?thesis by (simp add: fromV1_def)
next
  case False
  with assms have d: "Decoder_Decode (Pointer gr) payload h = (out, h', rest)"
    by (simp add: Decode_def)
  from Decoder_Decode_frame[OF d] show ?thesis by simp
qed

theorem Decode_frame_witness:
  \<open>Decode (Some 1) ''v1'' ''{"firstName":"John","lastName":"Sample","name":"Other"}''
      [\<lparr>Name = ''a''\<rparr>, \<lparr>Name = ''b''\<rparr>, \<lparr>Name = ''c''\<rparr>]
    = (Returned None,
       [\<lparr>Name = ''a''\<rparr>, \<lparr>Name = ''John Sample''\<rparr>, \<lparr>Name = ''c''\<rparr>, \<lparr>Name = ''Other''\<rparr>], [])
   \<and> [\<lparr>Name = ''a''\<rparr>, \<lparr>Name = ''John Sample''\<rparr>, \<lparr>Name = ''c''\<rparr>, \<lparr>Name = ''Other''\<rparr>] ! 0
       = [\<lparr>Name = ''a''\<rparr>, \<lparr>Name = ''b''\<rparr>, \<lparr>Name = ''c''\<rparr>] ! 0
   \<and> [\<lparr>Name = ''a''\<rparr>, \<lparr>Name = ''John Sample''\<rparr>, \<lparr>Name = ''c''\<rparr>, \<lparr>Name = ''Other''\<rparr>] ! 2
       = [\<lparr>Name = ''a''\<rparr>, \<lparr>Name = ''b''\<rparr>, \<lparr>Name = ''c''\<rparr>] ! 2\<close>
proof -
  have d: \<open>Decode (Some 1) ''v1'' ''{"firstName":"John","lastName":"Sample","name":"Other"}''
      [\<lparr>Name = ''a''\<rparr>, \<lparr>Name = ''b''\<rparr>, \<lparr>Name = ''c''\<rparr>]
    = (Returned None,
       [\<lparr>Name = ''a''\<rparr>, \<lparr>Name = ''John Sample''\<rparr>, \<lparr>Name = ''c''\<rparr>, \<lparr>Name = ''Other''\<rparr>], [])\<close>
    by code_simp
  note f = Decode_frame[OF d, THEN conjunct2, rule_format]
  have "(0::nat) < length [\<lparr>Name = ''a''\<rparr>, \<lparr>Name = ''b''\<rparr>, \<lparr>Name = ''c''\<rparr>]" "Some (1::nat) \<noteq> Some 0"
    "(2::nat) < length [\<lparr>Name = ''a''\<rparr>, \<lparr>Name = ''b''\<rparr>, \<lparr>Name = ''c''\<rparr>]" "Some (1::nat) \<noteq> Some 2"
    by simp_all
  from f[OF this(1,2)] f[OF this(3,4)] d show ?thesis by blast
qed

text \<open>
  Claim C9. For every payload tagged \<^verbatim>\<open>"v1"\<close> that is a JSON object with a \<^verbatim>\<open>name\<close>
  member besides \<^verbatim>\<open>firstName\<close> = \<open>F\<close> and \<^verbatim>\<open>lastName\<close> = \<open>L\<close>, the \<^verbatim>\<open>name\<close> member has
  no effect on the record: after a successful \<open>Decode\<close> the record's name is \<open>F\<close>, a
  space, \<open>L\<close>. (The member is stored into a record the unmarshalling allocates for
  itself, not into the caller's.)
\<close>

theorem v1_ignores_name_member:
  assumes "readValue payload = Inr (b, rest)" and "checkValid b = Inr (JObject ms)"
    and "members_named ''firstName'' ms = [JString F]"
    and "members_named ''lastName'' ms = [JString L]"
    and "members_named ''name'' ms \<noteq> []"
    and "gr < length h"
    and "Decode (Some gr) ''v1'' payload h = (Returned None, h', rest')"
  shows "Name (h' ! gr) = F @ '' '' @ L"
proof -
  have "fits fields_grv1 (JObject ms)"
  proof (rule ccontr)
    assume "\<not> fits fields_grv1 (JObject ms)"
    from Decode_v1_value(2)[OF assms(1,2,6) this] assms(7) show False by auto
  qed
  from Decode_v1_value(1)[OF assms(1,2,6) this] assms(3,4,7) show ?thesis by auto
qed

theorem v1_ignores_name_member_witness:
  \<open>Decode (Some 0) ''v1'' ''{"name":"Other","firstName":"John","lastName":"Sample"}'' [\<lparr>Name = []\<rparr>]
      = (Returned None, [\<lparr>Name = ''John Sample''\<rparr>, \<lparr>Name = ''Other''\<rparr>], [])
   \<and> Name ([\<lparr>Name = ''John Sample''\<rparr>, \<lparr>Name = ''Other''\<rparr>] ! 0) = ''John'' @ '' '' @ ''Sample''\<close>
proof -
  have rv: \<open>readValue ''{"name":"Other","firstName":"John","lastName":"Sample"}''
              = Inr (''{"name":"Other","firstName":"John","lastName":"Sample"}'', [])\<close>
    by code_simp
  have cv: \<open>checkValid ''{"name":"Other","firstName":"John","lastName":"Sample"}''
              = Inr (JObject [(''name'', JString ''Other''), (''firstName'', JString ''John''),
                              (''lastName'', JString ''Sample'')])\<close>
    by code_simp
  have f: "members_named ''firstName'' [(''name'', JString ''Other''), (''firstName'', JString ''John''),
                              (''lastName'', JString ''Sample'')] = [JString ''John'']"
    by code_simp
  have l: "members_named ''lastName'' [(''name'', JString ''Other''), (''firstName'', JString ''John''),
                              (''lastName'', JString ''Sample'')] = [JString ''Sample'']"
    by code_simp
  have n: "members_named ''name'' [(''name'', JString ''Other''), (''firstName'', JString ''John''),
                              (''lastName'', JString ''Sample'')] \<noteq> []"
    by code_simp
  have g: "(0::nat) < length [\<lparr>Name = []\<rparr>]" by simp
  have d: \<open>Decode (Some 0) ''v1'' ''{"name":"Other","firstName":"John","lastName":"Sample"}'' [\<lparr>Name = []\<rparr>]
      = (Returned None, [\<lparr>Name = ''John Sample''\<rparr>, \<lparr>Name = ''Other''\<rparr>], [])\<close>
    by code_simp
  from v1_ignores_name_member[OF rv cv f l n g d] d show ?thesis by blast
qed

text \<open>
  Claim C10. On the \<^verbatim>\<open>"v1"\<close> path \<open>Decode\<close> is atomic with respect to the canonical
  record: when it returns an error, the receiver (and every other cell that existed
  before the call) is exactly as it was; the adapter writes only after its intermediate
  unmarshal has succeeded.
\<close>

theorem v1_failure_leaves_record:
  assumes "Decode (Some gr) ''v1'' payload h = (Returned (Some e), h', rest)"
    and "gr < length h"
  shows "h' ! gr = h ! gr \<and> take (length h) h' = h"
proof -
  from assms(1) have d: "Decoder_Decode (Unmarshaler (fromV1 (Some gr))) payload h
      = (Returned (Some e), h', rest)"
    by (simp add: Decode_def)
  have tk: "take (length h) h' = h"
  proof (cases "readValue payload")
    case (Inl e')
    with d show ?thesis by (simp add: Decoder_Decode_def)
  next
    case (Inr p)
    obtain b rest' where p: "p = (b, rest')" by (cases p)
    from d Inr p have "UnmarshalJSON (fromV1 (Some gr)) b h = (Returned (Some e), h')"
      by (auto simp: Decoder_Decode_def split: prod.splits)
    from UnmarshalJSON_frame(3)[OF this] show ?thesis by simp
  qed
  from nth_of_take[OF tk assms(2)] tk show ?thesis by simp
qed

theorem v1_failure_leaves_record_witness:
  \<open>Decode (Some 0) ''v1'' ''{"name":"Other","firstName":"John","lastName":7}'' [\<lparr>Name = ''before''\<rparr>]
     = (Returned (Some (UnmarshalTypeError ''number'' ''lastName'')),
        [\<lparr>Name = ''before''\<rparr>, \<lparr>Name = ''Other''\<rparr>], [])
   \<and> [\<lparr>Name = ''before''\<rparr>, \<lparr>Name = ''Other''\<rparr>] ! 0 = [\<lparr>Name = ''before''\<rparr>] ! 0\<close>
proof -
  have d: \<open>Decode (Some 0) ''v1'' ''{"name":"Other","firstName":"John","lastName":7}'' [\<lparr>Name = ''before''\<rparr>]
     = (Returned (Some (UnmarshalTypeError ''number'' ''lastName'')),
        [\<lparr>Name = ''before''\<rparr>, \<lparr>Name = ''Other''\<rparr>], [])\<close>
    by code_simp
  have l: "(0::nat) < length [\<lparr>Name = ''before''\<rparr>]" by simp
  from v1_failure_leaves_record[OF d l] d show ?thesis by simp
qed

end
